theory Spec2Isabelle
  imports Complex_Main "HOL-Library.Sublist"
begin

section \<open>The trail search client (public/app.js)\<close>

text \<open>
  The client reads a form, turns its entries into a query string (\<open>buildQuery\<close>),
  fetches the trails and renders them into two page elements (\<open>renderTrails\<close>,
  \<open>fetchTrails\<close>). Strings are modelled as byte lists: a JavaScript string stands for
  its UTF-8 encoding, which is what the URL serializer works on.
\<close>

subsection \<open>Numbers and their string forms\<close>

text \<open>Decimal digits of a natural number, as a template literal prints \<open>trails.length\<close>.\<close>

fun show_nat :: "nat \<Rightarrow> string" where
  "show_nat n =
     (if n < 10 then [char_of (48 + n)]
      else show_nat (n div 10) @ [char_of (48 + n mod 10)])"

declare show_nat.simps [simp del]

text \<open>Reading a decimal numeral back; used to say what number a label shows.\<close>

definition read_nat :: "string \<Rightarrow> nat" where
  "read_nat ds = foldl (\<lambda>acc c. 10 * acc + (of_char c - 48)) 0 ds"

text \<open>
  A number literal of the source with few digits, \<open>Decimal m e\<close> for \<open>m / 10 ^ e\<close>
  (\<open>-41.35\<close> is \<open>Decimal (-4135) 2\<close>). Every literal of the table has fewer than 16
  significant digits, so the double it denotes prints (Number::toString) as the
  shortest decimal that reads back to it: the literal without its trailing zeros.
\<close>

datatype decimal = Decimal int nat

definition strip_zeros :: "string \<Rightarrow> string" where
  "strip_zeros ds = rev (dropWhile (\<lambda>c. c = CHR ''0'') (rev ds))"

fun decimal_toString :: "decimal \<Rightarrow> string" where
  "decimal_toString (Decimal m e) =
     (let a = nat \<bar>m\<bar>;
          ip = show_nat (a div 10 ^ e);
          fp = show_nat (a mod 10 ^ e);
          fd = strip_zeros (replicate (e - length fp) (CHR ''0'') @ fp)
      in (if m < 0 then ''-'' else '''') @ ip @ (if fd = [] then [] else ''.'' @ fd))"

declare decimal_toString.simps [simp del]

text \<open>
  A number received in a trail record: the exact value of a finite double, or one of
  the three values that are not finite.
\<close>

datatype js_number = Finite rat | NaN | PosInfinity | NegInfinity

text \<open>
  Number::toString. Integers of magnitude below \<open>10 ^ 21\<close> print as their digits.
  For every other finite value the engine generates the shortest digits that read
  back to the same double; that part is the parameter \<open>shortest\<close>.
\<close>

definition Number_toString :: "(rat \<Rightarrow> string) \<Rightarrow> js_number \<Rightarrow> string" where
  "Number_toString shortest x =
     (case x of
        NaN \<Rightarrow> ''NaN''
      | PosInfinity \<Rightarrow> ''Infinity''
      | NegInfinity \<Rightarrow> ''-Infinity''
      | Finite r \<Rightarrow>
          if of_int \<lfloor>r\<rfloor> = r \<and> \<bar>r\<bar> < 10 ^ 21
          then (if r < 0 then ''-'' else '''') @ show_nat (nat \<lfloor>\<bar>r\<bar>\<rfloor>)
          else shortest r)"

text \<open>
  Number.prototype.toFixed(f), for \<open>f \<le> 100\<close> (the source calls it with 1): a value
  that is not finite prints as Number::toString does, and so does a magnitude of
  \<open>10 ^ 21\<close> or more; otherwise \<open>n\<close> is the integer nearest to \<open>x * 10 ^ f\<close>, the
  larger one on a tie, and its digits are padded to \<open>f + 1\<close> places and split by
  the point.
\<close>

definition toFixed :: "(rat \<Rightarrow> string) \<Rightarrow> nat \<Rightarrow> js_number \<Rightarrow> string" where
  "toFixed shortest f x =
     (case x of
        Finite r \<Rightarrow>
          (let s = (if r < 0 then ''-'' else ''''); a = \<bar>r\<bar> in
           if 10 ^ 21 \<le> a then s @ Number_toString shortest (Finite a)
           else
             let n = nat \<lfloor>a * 10 ^ f + 1 / 2\<rfloor>;
                 m = show_nat n;
                 m = (if f \<noteq> 0
                      then (let z = (if length m \<le> f
                                     then replicate (f + 1 - length m) (CHR ''0'') @ m
                                     else m);
                                k = length z
                            in take (k - f) z @ ''.'' @ drop (k - f) z)
                      else m)
             in s @ m)
      | _ \<Rightarrow> Number_toString shortest x)"

subsection \<open>The region table\<close>

record bbox =
  min_lat :: decimal
  min_lon :: decimal
  max_lat :: decimal
  max_lon :: decimal

definition regionBboxes :: "(string \<times> bbox) list" where
  "regionBboxes =
     [(''wellington'',
         \<lparr>min_lat = Decimal (-4135) 2, min_lon = Decimal 17472 2,
          max_lat = Decimal (-4124) 2, max_lon = Decimal 17482 2\<rparr>),
      (''auckland'',
         \<lparr>min_lat = Decimal (-3693) 2, min_lon = Decimal 17463 2,
          max_lat = Decimal (-3677) 2, max_lon = Decimal 17484 2\<rparr>),
      (''queenstown'',
         \<lparr>min_lat = Decimal (-4508) 2, min_lon = Decimal 16856 2,
          max_lat = Decimal (-4495) 2, max_lon = Decimal 16879 2\<rparr>),
      (''christchurch'',
         \<lparr>min_lat = Decimal (-4360) 2, min_lon = Decimal 17250 2,
          max_lat = Decimal (-4345) 2, max_lon = Decimal 17277 2\<rparr>)]"

text \<open>
  \<open>regionBboxes[region]\<close> is a property read on an object literal: besides the four
  own entries it finds what every object inherits from Object.prototype. Each of
  those members is a function or an object, so it is truthy and has no \<open>min_lat\<close>.
\<close>

definition Object_prototype_keys :: "string list" where
  "Object_prototype_keys =
     [''constructor'', ''hasOwnProperty'', ''isPrototypeOf'', ''propertyIsEnumerable'',
      ''toLocaleString'', ''toString'', ''valueOf'', ''__proto__'',
      ''__defineGetter__'', ''__defineSetter__'', ''__lookupGetter__'',
      ''__lookupSetter__'']"

datatype property = Own bbox | Inherited

definition regionBboxes_get :: "string \<Rightarrow> property option" where
  "regionBboxes_get k =
     (case map_of regionBboxes k of
        Some b \<Rightarrow> Some (Own b)
      | None \<Rightarrow> if k \<in> set Object_prototype_keys then Some Inherited else None)"

text \<open>
  \<open>bbox.min_lat\<close> and its conversion to the string \<open>params.set\<close> stores: the number's
  string form for an entry of the table, \<open>undefined\<close> for an inherited member.
\<close>

definition member_string :: "property \<Rightarrow> (bbox \<Rightarrow> decimal) \<Rightarrow> string" where
  "member_string p field =
     (case p of Own b \<Rightarrow> decimal_toString (field b) | Inherited \<Rightarrow> ''undefined'')"

subsection \<open>FormData and URLSearchParams\<close>

text \<open>An entry of a FormData is a name with a string or a file.\<close>

datatype FormDataEntryValue = Text string | File

type_synonym FormData = "(string \<times> FormDataEntryValue) list"

text \<open>\<open>data.get(name)\<close>: the value of the first entry of that name, \<open>null\<close> if none.\<close>

definition FormData_get :: "FormData \<Rightarrow> string \<Rightarrow> FormDataEntryValue option" where
  "FormData_get data k = map_of data k"

text \<open>Truthiness: the empty string is falsy, every other string and every file is truthy.\<close>

fun truthy :: "FormDataEntryValue \<Rightarrow> bool" where
  "truthy (Text s) = (s \<noteq> [])"
| "truthy File = True"

fun value_toString :: "FormDataEntryValue \<Rightarrow> string" where
  "value_toString (Text s) = s"
| "value_toString File = ''[object File]''"

type_synonym URLSearchParams = "(string \<times> string) list"

text \<open>
  \<open>params.set(name, value)\<close>: if a pair of that name exists, the first such pair takes
  the value and the others are removed; otherwise the pair is appended.
\<close>

fun URLSearchParams_set :: "string \<Rightarrow> string \<Rightarrow> URLSearchParams \<Rightarrow> URLSearchParams" where
  "URLSearchParams_set k v [] = [(k, v)]"
| "URLSearchParams_set k v (p # ps) =
     (if fst p = k then (k, v) # filter (\<lambda>q. fst q \<noteq> k) ps
      else p # URLSearchParams_set k v ps)"

text \<open>
  \<open>params.toString()\<close>, the application/x-www-form-urlencoded serializer: a byte is
  kept if it is an ASCII letter, a digit or one of \<open>* - . _\<close>, a space becomes \<open>+\<close>,
  every other byte becomes \<open>%\<close> and two upper-case hexadecimal digits.
\<close>

definition hex_digit :: "nat \<Rightarrow> char" where
  "hex_digit n = (if n < 10 then char_of (48 + n) else char_of (55 + n))"

definition unreserved :: "char \<Rightarrow> bool" where
  "unreserved c =
     (let n = (of_char c :: nat)
      in (48 \<le> n \<and> n \<le> 57) \<or> (65 \<le> n \<and> n \<le> 90) \<or> (97 \<le> n \<and> n \<le> 122)
         \<or> n = 42 \<or> n = 45 \<or> n = 46 \<or> n = 95)"

definition encode_byte :: "char \<Rightarrow> string" where
  "encode_byte c =
     (if unreserved c then [c]
      else if c = CHR '' '' then ''+''
      else [CHR ''%'', hex_digit (of_char c div 16), hex_digit (of_char c mod 16)])"

definition urlencode :: "string \<Rightarrow> string" where
  "urlencode s = concat (map encode_byte s)"

fun URLSearchParams_toString :: "URLSearchParams \<Rightarrow> string" where
  "URLSearchParams_toString [] = []"
| "URLSearchParams_toString [p] = urlencode (fst p) @ ''='' @ urlencode (snd p)"
| "URLSearchParams_toString (p # ps) =
     urlencode (fst p) @ ''='' @ urlencode (snd p) @ ''&'' @ URLSearchParams_toString ps"

subsection \<open>Reading a query string\<close>

text \<open>
  What it means for a query string to contain a parameter is fixed by the
  application/x-www-form-urlencoded parser, the one the receiving end runs: split at
  \<open>&\<close>, drop empty pieces, split each piece at its first \<open>=\<close>, turn \<open>+\<close> into a space
  and decode the percent escapes.
\<close>

fun split_on :: "char \<Rightarrow> string \<Rightarrow> string list" where
  "split_on d [] = [[]]"
| "split_on d (c # cs) =
     (if c = d then [] # split_on d cs
      else (case split_on d cs of [] \<Rightarrow> [[c]] | w # ws \<Rightarrow> (c # w) # ws))"

definition unhex :: "char \<Rightarrow> nat option" where
  "unhex c =
     (let n = (of_char c :: nat)
      in if 48 \<le> n \<and> n \<le> 57 then Some (n - 48)
         else if 65 \<le> n \<and> n \<le> 70 then Some (n - 55)
         else if 97 \<le> n \<and> n \<le> 102 then Some (n - 87)
         else None)"

fun percent_decode :: "string \<Rightarrow> string" where
  "percent_decode [] = []"
| "percent_decode [c] = [c]"
| "percent_decode [c, a] = c # percent_decode [a]"
| "percent_decode (c # a # b # cs) =
     (case (c = CHR ''%'', unhex a, unhex b) of
        (True, Some x, Some y) \<Rightarrow> char_of (16 * x + y) # percent_decode cs
      | _ \<Rightarrow> c # percent_decode (a # b # cs))"

definition urldecode :: "string \<Rightarrow> string" where
  "urldecode s = percent_decode (map (\<lambda>c. if c = CHR ''+'' then CHR '' '' else c) s)"

definition parse_pair :: "string \<Rightarrow> string \<times> string" where
  "parse_pair w =
     (urldecode (takeWhile (\<lambda>c. c \<noteq> CHR ''='') w),
      urldecode (drop 1 (dropWhile (\<lambda>c. c \<noteq> CHR ''='') w)))"

definition parse_query :: "string \<Rightarrow> (string \<times> string) list" where
  "parse_query q = map parse_pair (filter (\<lambda>w. w \<noteq> []) (split_on (CHR ''&'') q))"

subsection \<open>The page and the query builder\<close>

text \<open>
  The four page elements the script holds: for the form, the entries a FormData built
  from it has; for the results and providers elements, the string last assigned to
  \<open>innerHTML\<close>; for the count element, its \<open>textContent\<close>.
\<close>

record dom =
  form :: FormData
  resultsEl :: string
  resultCountEl :: string
  providersEl :: string

text \<open>Lines 33 to 39: the region branch.\<close>

definition region_params :: "FormDataEntryValue option \<Rightarrow> URLSearchParams \<Rightarrow> URLSearchParams" where
  "region_params region params =
     (case region of
        None \<Rightarrow> params
      | Some r \<Rightarrow>
          if truthy r then
            (case regionBboxes_get (value_toString r) of
               None \<Rightarrow> params
             | Some b \<Rightarrow>
                 URLSearchParams_set ''max_lon'' (member_string b max_lon)
                   (URLSearchParams_set ''max_lat'' (member_string b max_lat)
                     (URLSearchParams_set ''min_lon'' (member_string b min_lon)
                       (URLSearchParams_set ''min_lat'' (member_string b min_lat) params))))
          else params)"

text \<open>Lines 40 to 47: one round of the loop over the entries.\<close>

definition field_step :: "string \<times> FormDataEntryValue \<Rightarrow> URLSearchParams \<Rightarrow> URLSearchParams" where
  "field_step e params =
     (if fst e = ''region'' then params
      else if truthy (snd e) then URLSearchParams_set (fst e) (value_toString (snd e)) params
      else params)"

definition buildQuery :: "dom \<Rightarrow> string \<times> dom" where
  "buildQuery d =
     (let data = form d;
          params = [];
          region = FormData_get data ''region'';
          params = region_params region params;
          params = fold field_step data params
      in (URLSearchParams_toString params, d))"

subsection \<open>Rendering\<close>

text \<open>
  \<open>value.replaceAll(pattern, replacement)\<close> for string arguments, the replacement
  holding no \<open>$\<close>: matches are taken from left to right and do not overlap; an empty
  pattern matches before every character and at the end.
\<close>

function replaceAll :: "string \<Rightarrow> string \<Rightarrow> string \<Rightarrow> string" where
  "replaceAll pat rep [] = (if pat = [] then rep else [])"
| "replaceAll pat rep (c # cs) =
     (if pat = [] then rep @ c # replaceAll pat rep cs
      else if prefix pat (c # cs) then rep @ replaceAll pat rep (drop (length pat) (c # cs))
      else c # replaceAll pat rep cs)"
  by pat_completeness auto
termination
  by (relation "measure (\<lambda>(pat, rep, s). length s)") auto

definition formatLabel :: "string \<Rightarrow> string" where
  "formatLabel v = replaceAll ''_'' '' '' v"

text \<open>
  A trail record as the parsed response gives it, with the field types of the data
  model; \<open>dog_notes\<close> is \<open>None\<close> when the field is \<open>null\<close> or missing.
\<close>

record trail =
  name :: string
  location :: string
  distance_km :: js_number
  elevation_m :: js_number
  difficulty :: string
  provider :: string
  dog_policy :: string
  dog_notes :: "string option"
  surface :: string
  map_url :: string

text \<open>The last interpolation of the card template, lines 75 to 79.\<close>

definition warning_block :: "trail \<Rightarrow> string" where
  \<open>warning_block t =
     (if dog_policy t \<noteq> ''allowed''
      then ''<div class="warning">''
           @ (case dog_notes t of Some n \<Rightarrow> n | None \<Rightarrow> ''Dog access has restrictions.'')
           @ ''</div>''
      else '''')\<close>

text \<open>The card template up to that interpolation, lines 58 to 74.\<close>

definition card_body :: "(rat \<Rightarrow> string) \<Rightarrow> trail \<Rightarrow> string" where
  \<open>card_body shortest t = concat
     [''\<newline>      <article class="trail">'',
      ''\<newline>        <h3>'', name t, ''</h3>'',
      ''\<newline>        <div class="trail-meta">'',
      ''\<newline>          <span class="tag">'', location t, ''</span>'',
      ''\<newline>          <span class="tag">'', toFixed shortest 1 (distance_km t), '' km</span>'',
      ''\<newline>          <span class="tag">'', Number_toString shortest (elevation_m t), '' m gain</span>'',
      ''\<newline>          <span class="tag">'', formatLabel (difficulty t), ''</span>'',
      ''\<newline>          <span class="tag">'', provider t, ''</span>'',
      ''\<newline>        </div>'',
      ''\<newline>        <div class="trail-meta">'',
      ''\<newline>          <span class="tag">Dog policy: '', formatLabel (dog_policy t), ''</span>'',
      ''\<newline>          <span class="tag">Surface: '', surface t, ''</span>'',
      ''\<newline>        </div>'',
      ''\<newline>        <div>'',
      ''\<newline>          <a href="'', map_url t, ''" target="_blank" rel="noreferrer">View map</a>'',
      ''\<newline>        </div>'',
      ''\<newline>        '']\<close>

definition trail_card :: "(rat \<Rightarrow> string) \<Rightarrow> trail \<Rightarrow> string" where
  "trail_card shortest t =
     card_body shortest t @ warning_block t @ ''\<newline>      </article>''"

definition renderTrails :: "(rat \<Rightarrow> string) \<Rightarrow> trail list \<Rightarrow> dom \<Rightarrow> dom" where
  "renderTrails shortest trails d =
     d\<lparr>resultsEl := concat (map (trail_card shortest) trails),
       resultCountEl :=
         show_nat (length trails) @ '' route'' @ (if length trails = 1 then '''' else ''s'')\<rparr>"

subsection \<open>Fetching\<close>

text \<open>
  A response: its \<open>ok\<close> flag, its status text, and what \<open>response.json()\<close> would
  give, \<open>None\<close> when the body is not the JSON of a list of trail records (reading it
  or rendering it then throws, and the promise of \<open>fetchTrails\<close> rejects).
  \<open>fetch\<close> itself gives \<open>None\<close> when the request fails on the network.
\<close>

record response =
  ok :: bool
  statusText :: string
  json :: "trail list option"

datatype rejection = NetworkError | BodyError

datatype effect = Fetch string | ReadBody

text \<open>
  \<open>fetchTrails\<close> gives the page it leaves behind, or the rejection of its promise,
  together with the requests it made and the bodies it read, in order.
\<close>

definition fetchTrails ::
  "(rat \<Rightarrow> string) \<Rightarrow> (string \<Rightarrow> response option) \<Rightarrow> dom \<Rightarrow> (rejection + dom) \<times> effect list" where
  \<open>fetchTrails shortest fetch d =
     (let (query, d) = buildQuery d;
          url = ''/api/trails?'' @ query
      in case fetch url of
           None \<Rightarrow> (Inl NetworkError, [Fetch url])
         | Some r \<Rightarrow>
             if \<not> ok r then
               (Inr (d\<lparr>resultsEl :=
                         ''<div class="warning">Could not load live trails. ''
                         @ statusText r @ ''</div>'',
                       resultCountEl := ''0 routes''\<rparr>),
                [Fetch url])
             else
               (case json r of
                  None \<Rightarrow> (Inl BodyError, [Fetch url, ReadBody])
                | Some trails \<Rightarrow>
                    (Inr (renderTrails shortest trails d), [Fetch url, ReadBody])))\<close>

subsection \<open>Vocabulary of the statements\<close>

text \<open>
  The value a field name stands for in a form: the string form of the last entry of
  that name whose value is non-empty, \<open>None\<close> if there is no such entry. In a form
  whose names are distinct this is the value of the one entry of that name.
\<close>

definition field_value :: "FormData \<Rightarrow> string \<Rightarrow> string option" where
  "field_value data k =
     (case filter (\<lambda>e. fst e = k \<and> truthy (snd e)) data of
        [] \<Rightarrow> None
      | e # es \<Rightarrow> Some (value_toString (snd (last (e # es)))))"

definition bbox_keys :: "string list" where
  "bbox_keys = [''min_lat'', ''min_lon'', ''max_lat'', ''max_lon'']"

section \<open>Properties\<close>

subsection \<open>Decimal numerals\<close>

lemma read_nat_snoc: "read_nat (ds @ [c]) = 10 * read_nat ds + (of_char c - 48)"
  by (simp add: read_nat_def)

lemma read_show_nat: "read_nat (show_nat n) = n"
proof (induction n rule: show_nat.induct)
  case (1 n)
  show ?case
  proof (cases "n < 10")
    case True
    then show ?thesis
      by (subst show_nat.simps) (simp add: read_nat_def)
  next
    case False
    with 1 have ih: "read_nat (show_nat (n div 10)) = n div 10" by simp
    have d: "(of_char (char_of (48 + n mod 10)) :: nat) = 48 + n mod 10"
      by simp
    have "show_nat n = show_nat (n div 10) @ [char_of (48 + n mod 10)]"
      using False by (subst show_nat.simps) simp
    then show ?thesis
      using ih d by (simp add: read_nat_snoc)
  qed
qed

lemma show_nat_0: "show_nat 0 = ''0''"
  by code_simp

lemma show_nat_1: "show_nat (Suc 0) = ''1''"
  by code_simp


lemma digit_chars:
  "char_of (48 :: nat) = CHR ''0''" "char_of (49 :: nat) = CHR ''1''"
  "char_of (50 :: nat) = CHR ''2''" "char_of (51 :: nat) = CHR ''3''"
  "char_of (52 :: nat) = CHR ''4''" "char_of (53 :: nat) = CHR ''5''"
  "char_of (54 :: nat) = CHR ''6''" "char_of (55 :: nat) = CHR ''7''"
  "char_of (56 :: nat) = CHR ''8''" "char_of (57 :: nat) = CHR ''9''"
  by code_simp+

lemma table_strings:
  "decimal_toString (Decimal (-4135) 2) = ''-41.35''"
  "decimal_toString (Decimal 17472 2) = ''174.72''"
  "decimal_toString (Decimal (-4124) 2) = ''-41.24''"
  "decimal_toString (Decimal 17482 2) = ''174.82''"
  "decimal_toString (Decimal (-3693) 2) = ''-36.93''"
  "decimal_toString (Decimal 17463 2) = ''174.63''"
  "decimal_toString (Decimal (-3677) 2) = ''-36.77''"
  "decimal_toString (Decimal 17484 2) = ''174.84''"
  "decimal_toString (Decimal (-4508) 2) = ''-45.08''"
  "decimal_toString (Decimal 16856 2) = ''168.56''"
  "decimal_toString (Decimal (-4495) 2) = ''-44.95''"
  "decimal_toString (Decimal 16879 2) = ''168.79''"
  "decimal_toString (Decimal (-4360) 2) = ''-43.6''"
  "decimal_toString (Decimal 17250 2) = ''172.5''"
  "decimal_toString (Decimal (-4345) 2) = ''-43.45''"
  "decimal_toString (Decimal 17277 2) = ''172.77''"
  by (simp_all add: decimal_toString.simps show_nat.simps digit_chars strip_zeros_def)

subsection \<open>The count label and the empty list\<close>

text \<open>
  C5. For a list of \<open>N\<close> trails the count label is \<open>1 route\<close> when \<open>N = 1\<close> and the
  decimal numeral of \<open>N\<close> followed by \<open> routes\<close> for every other \<open>N\<close>, zero included.
\<close>

theorem count_label:
  "resultCountEl (renderTrails shortest trails d) =
     (if length trails = 1 then ''1 route'' else show_nat (length trails) @ '' routes'')
   \<and> read_nat (show_nat (length trails)) = length trails"
  by (simp add: renderTrails_def show_nat_1 read_show_nat)

text \<open>
  C6. On the empty list the renderer returns: the results element is left empty (no
  card) and the count label is \<open>0 routes\<close>.
\<close>

theorem render_empty:
  "renderTrails shortest [] d = d\<lparr>resultsEl := [], resultCountEl := ''0 routes''\<rparr>"
  by (simp add: renderTrails_def show_nat_0)

subsection \<open>The failed fetch\<close>

text \<open>
  C8. When the response to the trails request is not ok, the results element holds
  the warning with the status text and nothing else, the count label is \<open>0 routes\<close>,
  and the only effect is the request: the body is not read.
\<close>

theorem fetchTrails_not_ok:
  assumes "fetch (''/api/trails?'' @ fst (buildQuery d)) = Some r" and "\<not> ok r"
  shows \<open>fetchTrails shortest fetch d =
     (Inr (d\<lparr>resultsEl :=
               ''<div class="warning">Could not load live trails. '' @ statusText r @ ''</div>'',
             resultCountEl := ''0 routes''\<rparr>),
      [Fetch (''/api/trails?'' @ fst (buildQuery d))])\<close>
  using assms by (simp add: fetchTrails_def buildQuery_def Let_def)

theorem fetchTrails_not_ok_witness:
  \<open>fetchTrails (\<lambda>x. [])
     (\<lambda>u. Some \<lparr>ok = False, statusText = ''Bad Gateway'', json = None\<rparr>)
     \<lparr>form = [(''effort'', Text ''steady'')], resultsEl = ''old'', resultCountEl = ''3 routes'',
      providersEl = []\<rparr>
   = (Inr \<lparr>form = [(''effort'', Text ''steady'')],
           resultsEl = ''<div class="warning">Could not load live trails. Bad Gateway</div>'',
           resultCountEl = ''0 routes'', providersEl = []\<rparr>,
      [Fetch ''/api/trails?effort=steady''])\<close>
proof -
  let ?d = "\<lparr>form = [(''effort'', Text ''steady'')], resultsEl = ''old'',
             resultCountEl = ''3 routes'', providersEl = []\<rparr>"
  let ?r = "\<lparr>ok = False, statusText = ''Bad Gateway'', json = None\<rparr>"
  have q: "fst (buildQuery ?d) = ''effort=steady''"
    by code_simp
  have "(\<lambda>u. Some ?r) (''/api/trails?'' @ fst (buildQuery ?d)) = Some ?r" and "\<not> ok ?r"
    by simp_all
  from fetchTrails_not_ok [OF this, of "\<lambda>x. []"] show ?thesis
    by (simp add: q)
qed

subsection \<open>The query builder leaves the page alone\<close>

text \<open>
  C9. The query builder returns the page it was given, unchanged, and its query
  string is a function of the form's entries alone: two runs on pages whose forms
  hold the same entries give the same string.
\<close>

theorem buildQuery_pure:
  "snd (buildQuery d) = d \<and>
   (form d = form d' \<longrightarrow> fst (buildQuery d) = fst (buildQuery d'))"
  by (simp add: buildQuery_def Let_def)

theorem buildQuery_pure_witness:
  "buildQuery \<lparr>form = [(''dog'', Text ''allowed'')], resultsEl = ''a'', resultCountEl = ''b'',
                providersEl = ''c''\<rparr>
   = (''dog=allowed'',
      \<lparr>form = [(''dog'', Text ''allowed'')], resultsEl = ''a'', resultCountEl = ''b'',
       providersEl = ''c''\<rparr>)
   \<and> fst (buildQuery \<lparr>form = [(''dog'', Text ''allowed'')], resultsEl = [],
                       resultCountEl = [], providersEl = []\<rparr>) = ''dog=allowed''"
proof -
  let ?d = "\<lparr>form = [(''dog'', Text ''allowed'')], resultsEl = ''a'', resultCountEl = ''b'',
             providersEl = ''c''\<rparr>"
  let ?e = "\<lparr>form = [(''dog'', Text ''allowed'')], resultsEl = [], resultCountEl = [],
             providersEl = []\<rparr>"
  have q: "fst (buildQuery ?d) = ''dog=allowed''"
    by code_simp
  have same: "form ?d = form ?e"
    by simp
  from buildQuery_pure [of ?d ?e] same q show ?thesis
    by (simp add: prod_eq_iff)
qed

subsection \<open>The warning block\<close>

text \<open>
  C4. A card is the card body, the warning block and the closing tag. For a trail
  whose \<open>dog_policy\<close> is exactly \<open>allowed\<close> the warning block is empty; for any other
  policy it is the warning element holding \<open>dog_notes\<close> as they are when present, and
  the fallback text when absent. The card body does not depend on \<open>dog_notes\<close>, and
  the results element is the cards of the trails in order.
\<close>

theorem warning_block_policy:
  \<open>(dog_policy t = ''allowed'' \<longrightarrow>
      trail_card shortest t = card_body shortest t @ ''\<newline>      </article>'')
   \<and> (dog_policy t \<noteq> ''allowed'' \<and> dog_notes t = Some n \<longrightarrow>
      trail_card shortest t =
        card_body shortest t @ ''<div class="warning">'' @ n @ ''</div>''
        @ ''\<newline>      </article>'')
   \<and> (dog_policy t \<noteq> ''allowed'' \<and> dog_notes t = None \<longrightarrow>
      trail_card shortest t =
        card_body shortest t @ ''<div class="warning">Dog access has restrictions.</div>''
        @ ''\<newline>      </article>'')
   \<and> (warning_block t = [] \<longleftrightarrow> dog_policy t = ''allowed'')
   \<and> card_body shortest (t\<lparr>dog_notes := x\<rparr>) = card_body shortest t
   \<and> resultsEl (renderTrails shortest trails d) = concat (map (trail_card shortest) trails)\<close>
  by (simp add: trail_card_def warning_block_def card_body_def renderTrails_def)

theorem warning_block_policy_witness:
  \<open>trail_card (\<lambda>x. [])
     \<lparr>name = ''Ridge'', location = ''Wellington'', distance_km = Finite 5,
      elevation_m = Finite 120, difficulty = ''easy'', provider = ''OSM'',
      dog_policy = ''allowed'', dog_notes = Some ''unused'', surface = ''gravel'',
      map_url = ''u''\<rparr>
   = card_body (\<lambda>x. [])
       \<lparr>name = ''Ridge'', location = ''Wellington'', distance_km = Finite 5,
        elevation_m = Finite 120, difficulty = ''easy'', provider = ''OSM'',
        dog_policy = ''allowed'', dog_notes = Some ''unused'', surface = ''gravel'',
        map_url = ''u''\<rparr>
     @ ''\<newline>      </article>''
   \<and> trail_card (\<lambda>x. [])
     \<lparr>name = ''Ridge'', location = ''Wellington'', distance_km = Finite 5,
      elevation_m = Finite 120, difficulty = ''easy'', provider = ''OSM'',
      dog_policy = ''on_leash'', dog_notes = Some ''Leash at all times'', surface = ''gravel'',
      map_url = ''u''\<rparr>
   = card_body (\<lambda>x. [])
       \<lparr>name = ''Ridge'', location = ''Wellington'', distance_km = Finite 5,
        elevation_m = Finite 120, difficulty = ''easy'', provider = ''OSM'',
        dog_policy = ''on_leash'', dog_notes = Some ''Leash at all times'', surface = ''gravel'',
        map_url = ''u''\<rparr>
     @ ''<div class="warning">Leash at all times</div>'' @ ''\<newline>      </article>''
   \<and> trail_card (\<lambda>x. [])
     \<lparr>name = ''Ridge'', location = ''Wellington'', distance_km = Finite 5,
      elevation_m = Finite 120, difficulty = ''easy'', provider = ''OSM'',
      dog_policy = ''Allowed'', dog_notes = None, surface = ''gravel'',
      map_url = ''u''\<rparr>
   = card_body (\<lambda>x. [])
       \<lparr>name = ''Ridge'', location = ''Wellington'', distance_km = Finite 5,
        elevation_m = Finite 120, difficulty = ''easy'', provider = ''OSM'',
        dog_policy = ''Allowed'', dog_notes = None, surface = ''gravel'',
        map_url = ''u''\<rparr>
     @ ''<div class="warning">Dog access has restrictions.</div>''
     @ ''\<newline>      </article>''\<close>
proof -
  let ?a = "\<lparr>name = ''Ridge'', location = ''Wellington'', distance_km = Finite 5,
      elevation_m = Finite 120, difficulty = ''easy'', provider = ''OSM'',
      dog_policy = ''allowed'', dog_notes = Some ''unused'', surface = ''gravel'',
      map_url = ''u''\<rparr>"
  let ?b = "\<lparr>name = ''Ridge'', location = ''Wellington'', distance_km = Finite 5,
      elevation_m = Finite 120, difficulty = ''easy'', provider = ''OSM'',
      dog_policy = ''on_leash'', dog_notes = Some ''Leash at all times'', surface = ''gravel'',
      map_url = ''u''\<rparr>"
  let ?c = "\<lparr>name = ''Ridge'', location = ''Wellington'', distance_km = Finite 5,
      elevation_m = Finite 120, difficulty = ''easy'', provider = ''OSM'',
      dog_policy = ''Allowed'', dog_notes = None, surface = ''gravel'',
      map_url = ''u''\<rparr>"
  have a: "dog_policy ?a = ''allowed''"
    by simp
  have b: "dog_policy ?b \<noteq> ''allowed'' \<and> dog_notes ?b = Some ''Leash at all times''"
    by simp
  have c: "dog_policy ?c \<noteq> ''allowed'' \<and> dog_notes ?c = None"
    by simp
  from warning_block_policy [of ?a "\<lambda>x. []"] a
  have 1: "trail_card (\<lambda>x. []) ?a = card_body (\<lambda>x. []) ?a @ ''\<newline>      </article>''"
    by blast
  from warning_block_policy [of ?b "\<lambda>x. []" "''Leash at all times''"] b
  have 2: \<open>trail_card (\<lambda>x. []) ?b =
      card_body (\<lambda>x. []) ?b @ ''<div class="warning">'' @ ''Leash at all times'' @ ''</div>''
      @ ''\<newline>      </article>''\<close>
    by blast
  from warning_block_policy [of ?c "\<lambda>x. []"] c
  have 3: \<open>trail_card (\<lambda>x. []) ?c =
      card_body (\<lambda>x. []) ?c @ ''<div class="warning">Dog access has restrictions.</div>''
      @ ''\<newline>      </article>''\<close>
    by blast
  from 1 2 3 show ?thesis
    by simp
qed

subsection \<open>Distance and difficulty labels\<close>









subsection \<open>Reading back what the serializer wrote\<close>

lemma unreserved_not_special:
  assumes "unreserved c"
  shows "c \<noteq> CHR ''%''" "c \<noteq> CHR ''+''" "c \<noteq> CHR ''&''" "c \<noteq> CHR ''=''"
  using assms by (auto simp: unreserved_def)

lemma hex_digit_not_special:
  assumes "n < 16"
  shows "hex_digit n \<noteq> CHR ''+''" "hex_digit n \<noteq> CHR ''&''" "hex_digit n \<noteq> CHR ''=''"
proof -
  have "(of_char (hex_digit n) :: nat) = (if n < 10 then 48 + n else 55 + n)"
    using assms by (simp add: hex_digit_def)
  then have "48 \<le> (of_char (hex_digit n) :: nat)"
    by (simp split: if_splits)
  then show "hex_digit n \<noteq> CHR ''+''" "hex_digit n \<noteq> CHR ''&''" "hex_digit n \<noteq> CHR ''=''"
    using \<open>(of_char (hex_digit n) :: nat) = (if n < 10 then 48 + n else 55 + n)\<close> assms
    by (auto split: if_splits)
qed

lemma unhex_hex_digit: "n < 16 \<Longrightarrow> unhex (hex_digit n) = Some n"
  by (simp add: unhex_def hex_digit_def Let_def)

lemma of_char_less_256: "(of_char c :: nat) < 256"
  by (metis of_char_mod_256 mod_less_divisor zero_less_numeral)

lemma of_char_div_16: "(of_char c :: nat) div 16 < 16"
  using of_char_less_256 [of c] by presburger

lemma char_of_div_mod: "char_of (16 * ((of_char c :: nat) div 16) + of_char c mod 16) = c"
  by simp

lemma encode_byte_no_sep:
  "CHR ''&'' \<notin> set (encode_byte c)" "CHR ''='' \<notin> set (encode_byte c)"
proof -
  have "(of_char c :: nat) div 16 < 16"
    by (rule of_char_div_16)
  moreover have "(of_char c :: nat) mod 16 < 16"
    by simp
  ultimately show "CHR ''&'' \<notin> set (encode_byte c)" "CHR ''='' \<notin> set (encode_byte c)"
    using hex_digit_not_special [of "of_char c div 16"] hex_digit_not_special [of "of_char c mod 16"]
      unreserved_not_special [of c]
    by (auto simp: encode_byte_def)
qed

lemma urlencode_no_sep:
  "CHR ''&'' \<notin> set (urlencode s)" "CHR ''='' \<notin> set (urlencode s)"
  using encode_byte_no_sep by (auto simp: urlencode_def)

lemma percent_decode_other:
  "c \<noteq> CHR ''%'' \<Longrightarrow> percent_decode (c # cs) = c # percent_decode cs"
  by (cases cs rule: percent_decode.cases) (auto split: option.splits)

lemma percent_decode_escape:
  assumes "x < 16" "y < 16"
  shows "percent_decode (CHR ''%'' # hex_digit x # hex_digit y # cs) =
         char_of (16 * x + y) # percent_decode cs"
  using assms by (simp add: unhex_hex_digit)

lemma urldecode_encode_byte:
  "percent_decode (map (\<lambda>c. if c = CHR ''+'' then CHR '' '' else c) (encode_byte c) @ rest) =
   c # percent_decode rest"
proof -
  let ?f = "\<lambda>c. if c = CHR ''+'' then CHR '' '' else c"
  consider (u) "unreserved c" | (s) "\<not> unreserved c" "c = CHR '' ''"
    | (e) "\<not> unreserved c" "c \<noteq> CHR '' ''"
    by blast
  then show ?thesis
  proof cases
    case u
    then show ?thesis
      using unreserved_not_special [of c]
      by (simp add: encode_byte_def percent_decode_other)
  next
    case s
    then show ?thesis
      by (simp add: encode_byte_def percent_decode_other)
  next
    case e
    have hi: "(of_char c :: nat) div 16 < 16"
      by (rule of_char_div_16)
    have lo: "(of_char c :: nat) mod 16 < 16"
      by simp
    have "map ?f (encode_byte c) =
          [CHR ''%'', hex_digit (of_char c div 16), hex_digit (of_char c mod 16)]"
      using e hex_digit_not_special(1) [OF hi] hex_digit_not_special(1) [OF lo]
      by (simp add: encode_byte_def)
    then show ?thesis
      using percent_decode_escape [OF hi lo, of rest] char_of_div_mod [of c]
      by simp
  qed
qed

lemma urldecode_urlencode: "urldecode (urlencode s) = s"
proof -
  have "percent_decode (map (\<lambda>c. if c = CHR ''+'' then CHR '' '' else c) (urlencode s)) = s"
  proof (induction s)
    case Nil
    show ?case by (simp add: urlencode_def)
  next
    case (Cons c s)
    then show ?case
      using urldecode_encode_byte [of c "map (\<lambda>c. if c = CHR ''+'' then CHR '' '' else c) (urlencode s)"]
      by (simp add: urlencode_def)
  qed
  then show ?thesis
    by (simp add: urldecode_def)
qed

lemma split_on_no_sep: "d \<notin> set a \<Longrightarrow> split_on d a = [a]"
  by (induction a) auto

lemma split_on_append: "d \<notin> set a \<Longrightarrow> split_on d (a @ d # rest) = a # split_on d rest"
  by (induction a) auto

lemma parse_pair_encoded: "parse_pair (urlencode k @ ''='' @ urlencode v) = (k, v)"
proof -
  have "\<forall>c \<in> set (urlencode k). c \<noteq> CHR ''=''"
    using urlencode_no_sep(2) [of k] by auto
  then have "takeWhile (\<lambda>c. c \<noteq> CHR ''='') (urlencode k @ ''='' @ urlencode v) = urlencode k"
    and "dropWhile (\<lambda>c. c \<noteq> CHR ''='') (urlencode k @ ''='' @ urlencode v) = ''='' @ urlencode v"
    by (simp_all add: takeWhile_append2 dropWhile_append2)
  then show ?thesis
    by (simp add: parse_pair_def urldecode_urlencode)
qed

lemma pair_no_amp: "CHR ''&'' \<notin> set (urlencode k @ ''='' @ urlencode v)"
  using urlencode_no_sep(1) by simp

lemma parse_query_toString: "parse_query (URLSearchParams_toString ps) = ps"
proof (induction ps rule: URLSearchParams_toString.induct)
  case 1
  show ?case by (simp add: parse_query_def)
next
  case (2 p)
  have "split_on (CHR ''&'') (urlencode (fst p) @ ''='' @ urlencode (snd p)) =
        [urlencode (fst p) @ ''='' @ urlencode (snd p)]"
    by (rule split_on_no_sep) (rule pair_no_amp)
  then show ?case
    using parse_pair_encoded [of "fst p" "snd p"] by (simp add: parse_query_def)
next
  case (3 p q ps)
  have "split_on (CHR ''&'')
          ((urlencode (fst p) @ ''='' @ urlencode (snd p)) @ CHR ''&'' # URLSearchParams_toString (q # ps)) =
        (urlencode (fst p) @ ''='' @ urlencode (snd p))
        # split_on (CHR ''&'') (URLSearchParams_toString (q # ps))"
    by (rule split_on_append) (rule pair_no_amp)
  then have "parse_query (URLSearchParams_toString (p # q # ps)) =
        parse_pair (urlencode (fst p) @ ''='' @ urlencode (snd p))
        # parse_query (URLSearchParams_toString (q # ps))"
    by (simp add: parse_query_def)
  with 3 show ?case
    using parse_pair_encoded [of "fst p" "snd p"] by simp
qed

subsection \<open>Setting parameters\<close>

lemma URLSearchParams_set_distinct:
  assumes "distinct (map fst ps)"
  shows "URLSearchParams_set k v ps =
     (if k \<in> fst ` set ps then map (\<lambda>p. if fst p = k then (k, v) else p) ps
      else ps @ [(k, v)])"
  using assms
proof (induction ps)
  case Nil
  show ?case by simp
next
  case (Cons p ps)
  show ?case
  proof (cases "fst p = k")
    case True
    with Cons.prems have "k \<notin> fst ` set ps"
      by auto
    then have "\<forall>q \<in> set ps. fst q \<noteq> k"
      by auto
    then have "filter (\<lambda>q. fst q \<noteq> k) ps = ps"
      and "map (\<lambda>p. if fst p = k then (k, v) else p) ps = ps"
      by (simp_all add: filter_id_conv map_idI)
    with True show ?thesis
      by simp
  next
    case False
    with Cons show ?thesis
      by auto
  qed
qed

lemma set_names:
  assumes "distinct (map fst ps)"
  shows "map fst (URLSearchParams_set k v ps) =
     (if k \<in> fst ` set ps then map fst ps else map fst ps @ [k])"
proof -
  have "map (fst \<circ> (\<lambda>p. if fst p = k then (k, v) else p)) ps = map fst ps"
    by (rule map_cong) auto
  then show ?thesis
    using assms by (simp add: URLSearchParams_set_distinct)
qed

lemma set_keeps_distinct:
  assumes "distinct (map fst ps)"
  shows "distinct (map fst (URLSearchParams_set k v ps))"
  using assms by (auto simp: set_names)

lemma map_of_replace:
  "map_of (map (\<lambda>p. if fst p = k then (k, v) else p) ps) k' =
     (if k' = k then (if map_of ps k = None then None else Some v) else map_of ps k')"
  by (induction ps) auto

lemma set_map_of:
  assumes "distinct (map fst ps)"
  shows "map_of (URLSearchParams_set k v ps) = (map_of ps)(k \<mapsto> v)"
proof (cases "k \<in> fst ` set ps")
  case False
  then have "map_of ps k = None"
    by (simp add: map_of_eq_None_iff)
  with False assms show ?thesis
    by (auto simp: URLSearchParams_set_distinct fun_eq_iff map_add_def split: option.splits)
next
  case True
  then have "map_of ps k \<noteq> None"
    by (simp add: map_of_eq_None_iff)
  with True assms show ?thesis
    by (simp add: URLSearchParams_set_distinct map_of_replace fun_eq_iff)
qed

lemma set_names_prefix:
  assumes "distinct (map fst ps)"
  shows "take (length ps) (map fst (URLSearchParams_set k v ps)) = map fst ps"
  using assms by (simp add: set_names)

subsection \<open>The loop over the entries\<close>

lemma field_value_Nil: "field_value [] k = None"
  by (simp add: field_value_def)

lemma field_value_Cons:
  "field_value (e # es) k =
     (case field_value es k of
        Some v \<Rightarrow> Some v
      | None \<Rightarrow> if fst e = k \<and> truthy (snd e) then Some (value_toString (snd e)) else None)"
  by (auto simp: field_value_def split: list.splits)

lemma field_value_Some_iff:
  "(\<exists>v. field_value data k = Some v) \<longleftrightarrow> (\<exists>x. (k, x) \<in> set data \<and> truthy x)"
proof -
  have "filter (\<lambda>e. fst e = k \<and> truthy (snd e)) data \<noteq> [] \<longleftrightarrow>
        (\<exists>x. (k, x) \<in> set data \<and> truthy x)"
    by (force simp: filter_empty_conv)
  then show ?thesis
    by (auto simp: field_value_def split: list.splits)
qed

lemma field_value_None_iff:
  "field_value data k = None \<longleftrightarrow> \<not> (\<exists>x. (k, x) \<in> set data \<and> truthy x)"
  using field_value_Some_iff [of data k] by (cases "field_value data k") auto

lemma field_value_distinct:
  assumes "distinct (map fst data)" and "(k, x) \<in> set data"
  shows "field_value data k = (if truthy x then Some (value_toString x) else None)"
  using assms
proof (induction data)
  case Nil
  then show ?case by simp
next
  case (Cons e es)
  show ?case
  proof (cases "e = (k, x)")
    case True
    with Cons.prems have "k \<notin> fst ` set es"
      by auto
    then have "\<not> (\<exists>y. (k, y) \<in> set es \<and> truthy y)"
      by force
    then have "field_value es k = None"
      using field_value_Some_iff [of es k] by (cases "field_value es k") auto
    with True show ?thesis
      by (simp add: field_value_Cons)
  next
    case False
    with Cons.prems have in_es: "(k, x) \<in> set es" and "fst e \<noteq> k"
      by (auto simp: image_iff)
    with Cons show ?thesis
      by (auto simp: field_value_Cons)
  qed
qed

lemma field_step_distinct:
  "distinct (map fst ps) \<Longrightarrow> distinct (map fst (field_step e ps))"
  by (simp add: field_step_def set_keeps_distinct)

lemma field_step_map_of:
  assumes "distinct (map fst ps)"
  shows "map_of (field_step e ps) k =
     (if fst e = k \<and> k \<noteq> ''region'' \<and> truthy (snd e) then Some (value_toString (snd e))
      else map_of ps k)"
  using assms by (auto simp: field_step_def set_map_of)

lemma field_step_prefix:
  assumes "distinct (map fst ps)"
  shows "take (length ps) (map fst (field_step e ps)) = map fst ps"
  using assms by (simp add: field_step_def set_names_prefix)

lemma field_step_length:
  assumes "distinct (map fst ps)"
  shows "length ps \<le> length (field_step e ps)"
  using assms by (simp add: field_step_def URLSearchParams_set_distinct)

lemma loop_distinct:
  "distinct (map fst ps) \<Longrightarrow> distinct (map fst (fold field_step data ps))"
  by (induction data arbitrary: ps) (simp_all add: field_step_distinct)

lemma loop_map_of:
  assumes "distinct (map fst ps)"
  shows "map_of (fold field_step data ps) k =
     (if k = ''region'' then map_of ps k
      else (case field_value data k of Some v \<Rightarrow> Some v | None \<Rightarrow> map_of ps k))"
  using assms
proof (induction data arbitrary: ps)
  case Nil
  show ?case by (simp add: field_value_Nil)
next
  case (Cons e es)
  from Cons.prems have d: "distinct (map fst (field_step e ps))"
    by (rule field_step_distinct)
  have "map_of (fold field_step (e # es) ps) k = map_of (fold field_step es (field_step e ps)) k"
    by simp
  also have "\<dots> =
     (if k = ''region'' then map_of (field_step e ps) k
      else (case field_value es k of Some v \<Rightarrow> Some v | None \<Rightarrow> map_of (field_step e ps) k))"
    by (rule Cons.IH [OF d])
  finally show ?case
    using Cons.prems
    by (auto simp: field_step_map_of field_value_Cons split: option.splits)
qed

lemma loop_prefix:
  assumes "distinct (map fst ps)"
  shows "take (length ps) (map fst (fold field_step data ps)) = map fst ps"
  using assms
proof (induction data arbitrary: ps)
  case Nil
  show ?case by simp
next
  case (Cons e es)
  from Cons.prems have d: "distinct (map fst (field_step e ps))"
    by (rule field_step_distinct)
  let ?out = "map fst (fold field_step es (field_step e ps))"
  have le: "length ps \<le> length (field_step e ps)"
    using Cons.prems by (rule field_step_length)
  have "take (length ps) ?out = take (length ps) (take (length (field_step e ps)) ?out)"
    using le by (simp add: min_def)
  also have "\<dots> = take (length ps) (map fst (field_step e ps))"
    by (simp only: Cons.IH [OF d])
  also have "\<dots> = map fst ps"
    using Cons.prems by (rule field_step_prefix)
  finally show ?case
    by simp
qed

lemma loop_names:
  assumes "distinct (map fst ps)"
  shows "fst ` set (fold field_step data ps) =
     fst ` set ps \<union> {k. k \<noteq> ''region'' \<and> (\<exists>x. (k, x) \<in> set data \<and> truthy x)}"
proof -
  have "k \<in> fst ` set (fold field_step data ps) \<longleftrightarrow>
        k \<in> fst ` set ps \<or> (k \<noteq> ''region'' \<and> (\<exists>x. (k, x) \<in> set data \<and> truthy x))" for k
  proof -
    have "k \<in> fst ` set (fold field_step data ps) \<longleftrightarrow>
          map_of (fold field_step data ps) k \<noteq> None"
      by (simp add: map_of_eq_None_iff)
    also have "\<dots> \<longleftrightarrow> map_of ps k \<noteq> None \<or> (k \<noteq> ''region'' \<and> (\<exists>v. field_value data k = Some v))"
      using assms by (auto simp: loop_map_of split: option.splits)
    also have "\<dots> \<longleftrightarrow> k \<in> fst ` set ps \<or> (k \<noteq> ''region'' \<and> (\<exists>v. field_value data k = Some v))"
      by (simp add: map_of_eq_None_iff)
    finally show ?thesis
      by (simp add: field_value_Some_iff)
  qed
  then show ?thesis
    by blast
qed

lemma distinct_pairs_nth:
  assumes "distinct (map fst xs)" and "i < length xs"
  shows "xs ! i = (map fst xs ! i, the (map_of xs (map fst xs ! i)))"
proof -
  from assms(2) have "xs ! i \<in> set xs"
    by simp
  then have "(fst (xs ! i), snd (xs ! i)) \<in> set xs"
    by simp
  with assms(1) have "map_of xs (fst (xs ! i)) = Some (snd (xs ! i))"
    by (rule map_of_is_SomeI)
  with assms(2) show ?thesis
    by (simp add: prod_eq_iff)
qed

lemma distinct_pairs_take:
  assumes "distinct (map fst xs)"
  shows "take n xs = map (\<lambda>k. (k, the (map_of xs k))) (take n (map fst xs))"
proof (rule nth_equalityI)
  show "length (take n xs) = length (map (\<lambda>k. (k, the (map_of xs k))) (take n (map fst xs)))"
    by simp
next
  fix i
  assume "i < length (take n xs)"
  then have i: "i < n" "i < length xs"
    by simp_all
  with distinct_pairs_nth [OF assms i(2)] show
    "take n xs ! i = map (\<lambda>k. (k, the (map_of xs k))) (take n (map fst xs)) ! i"
    by simp
qed

subsection \<open>The parameters of the query string\<close>

lemma parse_buildQuery:
  "parse_query (fst (buildQuery d)) =
   fold field_step (form d) (region_params (FormData_get (form d) ''region'') [])"
  by (simp add: buildQuery_def Let_def parse_query_toString)

lemma region_params_cases:
  "region_params region [] = [] \<or>
   (\<exists>r p. region = Some r \<and> truthy r \<and> regionBboxes_get (value_toString r) = Some p \<and>
      region_params region [] =
        [(''min_lat'', member_string p min_lat), (''min_lon'', member_string p min_lon),
         (''max_lat'', member_string p max_lat), (''max_lon'', member_string p max_lon)])"
  by (auto simp: region_params_def split: option.splits)

lemma region_params_distinct: "distinct (map fst (region_params region []))"
  using region_params_cases [of region] by auto

lemma region_params_no_region: "''region'' \<notin> fst ` set (region_params region [])"
  using region_params_cases [of region] by auto

lemma region_params_known:
  assumes "map_of regionBboxes r = Some b"
  shows "region_params (Some (Text r)) [] =
     [(''min_lat'', decimal_toString (min_lat b)), (''min_lon'', decimal_toString (min_lon b)),
      (''max_lat'', decimal_toString (max_lat b)), (''max_lon'', decimal_toString (max_lon b))]"
proof -
  from assms have "r \<noteq> []"
    by (auto simp: regionBboxes_def split: if_splits)
  with assms show ?thesis
    by (simp add: region_params_def regionBboxes_get_def member_string_def)
qed

lemma region_params_unknown:
  assumes "map_of regionBboxes r = None" and "r \<notin> set Object_prototype_keys"
  shows "region_params (Some (Text r)) [] = []"
  using assms by (simp add: region_params_def regionBboxes_get_def)

lemma params_distinct: "distinct (map fst (parse_query (fst (buildQuery d))))"
  unfolding parse_buildQuery by (rule loop_distinct) (rule region_params_distinct)

lemma params_no_region: "''region'' \<notin> fst ` set (parse_query (fst (buildQuery d)))"
  unfolding parse_buildQuery
  using region_params_no_region [of "FormData_get (form d) ''region''"]
  by (simp add: loop_names region_params_distinct)

lemma buildQuery_string:
  "fst (buildQuery d) =
   URLSearchParams_toString
     (fold field_step (form d) (region_params (FormData_get (form d) ''region'') []))"
  by (simp add: buildQuery_def Let_def)

lemma loop_fresh:
  assumes "distinct (map fst data)" and "''region'' \<notin> fst ` set data"
    and "fst ` set ps \<inter> fst ` set data = {}"
  shows "fold field_step data ps =
         ps @ map (\<lambda>e. (fst e, value_toString (snd e))) (filter (\<lambda>e. truthy (snd e)) data)"
  using assms
proof (induction data arbitrary: ps)
  case Nil
  show ?case by simp
next
  case (Cons e es)
  from Cons.prems have fresh: "fst e \<notin> fst ` set ps" and e: "fst e \<noteq> ''region''"
    and new: "fst e \<notin> fst ` set es"
    by auto
  have step: "field_step e ps =
      (if truthy (snd e) then ps @ [(fst e, value_toString (snd e))] else ps)"
  proof -
    have "URLSearchParams_set k v qs = qs @ [(k, v)]" if "k \<notin> fst ` set qs"
      for k v and qs :: URLSearchParams
      using that by (induction qs) auto
    with fresh e show ?thesis
      by (simp add: field_step_def)
  qed
  have "fst ` set (field_step e ps) \<inter> fst ` set es = {}"
    using Cons.prems(3) new by (auto simp: step)
  with Cons.prems have "fold field_step es (field_step e ps) =
      field_step e ps @ map (\<lambda>e. (fst e, value_toString (snd e))) (filter (\<lambda>e. truthy (snd e)) es)"
    by (intro Cons.IH) auto
  then show ?case
    by (simp add: step)
qed

lemma known_region_query:
  assumes "FormData_get (form d) ''region'' = Some (Text r)"
    and "map_of regionBboxes r = Some b"
  shows "parse_query (fst (buildQuery d)) =
     fold field_step (form d)
       [(''min_lat'', decimal_toString (min_lat b)), (''min_lon'', decimal_toString (min_lon b)),
        (''max_lat'', decimal_toString (max_lat b)), (''max_lon'', decimal_toString (max_lon b))]"
  using assms by (simp add: parse_buildQuery region_params_known)

lemma known_region_map_of:
  assumes "FormData_get (form d) ''region'' = Some (Text r)"
    and "map_of regionBboxes r = Some b"
    and "k \<noteq> ''region''"
  shows "map_of (parse_query (fst (buildQuery d))) k =
     (case field_value (form d) k of
        Some v \<Rightarrow> Some v
      | None \<Rightarrow>
          map_of [(''min_lat'', decimal_toString (min_lat b)),
                  (''min_lon'', decimal_toString (min_lon b)),
                  (''max_lat'', decimal_toString (max_lat b)),
                  (''max_lon'', decimal_toString (max_lon b))] k)"
  unfolding known_region_query [OF assms(1,2)]
  using assms(3) by (subst loop_map_of) simp_all

lemma known_region_first_names:
  assumes "FormData_get (form d) ''region'' = Some (Text r)"
    and "map_of regionBboxes r = Some b"
  shows "take 4 (map fst (parse_query (fst (buildQuery d)))) = bbox_keys"
proof -
  let ?ps = "[(''min_lat'', decimal_toString (min_lat b)),
              (''min_lon'', decimal_toString (min_lon b)),
              (''max_lat'', decimal_toString (max_lat b)),
              (''max_lon'', decimal_toString (max_lon b))]"
  have "distinct (map fst ?ps)"
    by simp
  then have "take (length ?ps) (map fst (fold field_step (form d) ?ps)) = map fst ?ps"
    by (rule loop_prefix)
  moreover have "length ?ps = 4"
    by simp
  ultimately have "take 4 (map fst (fold field_step (form d) ?ps)) = map fst ?ps"
    by (simp only:)
  then show ?thesis
    unfolding known_region_query [OF assms] by (simp add: bbox_keys_def)
qed

lemma known_region_first_four:
  assumes "FormData_get (form d) ''region'' = Some (Text r)"
    and "map_of regionBboxes r = Some b"
  shows "take 4 (parse_query (fst (buildQuery d))) =
     map (\<lambda>k. (k, the (map_of (parse_query (fst (buildQuery d))) k))) bbox_keys"
  using distinct_pairs_take [OF params_distinct, of 4 d] known_region_first_names [OF assms]
  by simp

subsection \<open>A recognised region\<close>

text \<open>
  C1, amended. If the form's \<open>region\<close> is a key of the table and no field of the form
  named \<open>min_lat\<close>, \<open>min_lon\<close>, \<open>max_lat\<close> or \<open>max_lon\<close> has a non-empty value, the
  query string holds each of these four parameters with the string form of the table's
  number for that region. For every form, recognised region or not, each parameter
  name occurs once and no parameter is named \<open>region\<close>.
\<close>

theorem region_expands_to_bbox:
  "(FormData_get (form d) ''region'' = Some (Text r) \<and> map_of regionBboxes r = Some b
      \<and> (\<forall>k \<in> set bbox_keys. field_value (form d) k = None) \<longrightarrow>
      map_of (parse_query (fst (buildQuery d))) ''min_lat'' = Some (decimal_toString (min_lat b))
      \<and> map_of (parse_query (fst (buildQuery d))) ''min_lon'' = Some (decimal_toString (min_lon b))
      \<and> map_of (parse_query (fst (buildQuery d))) ''max_lat'' = Some (decimal_toString (max_lat b))
      \<and> map_of (parse_query (fst (buildQuery d))) ''max_lon'' = Some (decimal_toString (max_lon b)))
   \<and> distinct (map fst (parse_query (fst (buildQuery d))))
   \<and> ''region'' \<notin> fst ` set (parse_query (fst (buildQuery d)))"
proof -
  have "map_of (parse_query (fst (buildQuery d))) k =
        map_of [(''min_lat'', decimal_toString (min_lat b)),
                (''min_lon'', decimal_toString (min_lon b)),
                (''max_lat'', decimal_toString (max_lat b)),
                (''max_lon'', decimal_toString (max_lon b))] k"
    if "FormData_get (form d) ''region'' = Some (Text r)" "map_of regionBboxes r = Some b"
      and "\<forall>k \<in> set bbox_keys. field_value (form d) k = None" and "k \<in> set bbox_keys" for k
  proof -
    from that(4) have "k \<noteq> ''region''"
      by (auto simp: bbox_keys_def)
    from known_region_map_of [OF that(1,2) this] that(3,4) show ?thesis
      by simp
  qed
  from this [of "''min_lat''"] this [of "''min_lon''"] this [of "''max_lat''"]
    this [of "''max_lon''"] params_distinct [of d] params_no_region [of d]
  show ?thesis
    by (simp add: bbox_keys_def)
qed

theorem region_expands_to_bbox_witness:
  "fst (buildQuery \<lparr>form = [(''region'', Text ''christchurch''), (''effort'', Text ''steady''),
                            (''min_lat'', Text [])],
                    resultsEl = [], resultCountEl = [], providersEl = []\<rparr>)
     = ''min_lat=-43.6&min_lon=172.5&max_lat=-43.45&max_lon=172.77&effort=steady''
   \<and> map_of (parse_query (fst (buildQuery
        \<lparr>form = [(''region'', Text ''christchurch''), (''effort'', Text ''steady''),
                 (''min_lat'', Text [])],
         resultsEl = [], resultCountEl = [], providersEl = []\<rparr>))) ''min_lat'' = Some ''-43.6''
   \<and> map_of (parse_query (fst (buildQuery
        \<lparr>form = [(''region'', Text ''christchurch''), (''effort'', Text ''steady''),
                 (''min_lat'', Text [])],
         resultsEl = [], resultCountEl = [], providersEl = []\<rparr>))) ''max_lon'' = Some ''172.77''"
proof -
  let ?d = "\<lparr>form = [(''region'', Text ''christchurch''), (''effort'', Text ''steady''),
                     (''min_lat'', Text [])],
             resultsEl = [], resultCountEl = [], providersEl = []\<rparr>"
  let ?b = "\<lparr>min_lat = Decimal (-4360) 2, min_lon = Decimal 17250 2,
             max_lat = Decimal (-4345) 2, max_lon = Decimal 17277 2\<rparr>"
  have h: "FormData_get (form ?d) ''region'' = Some (Text ''christchurch'')
      \<and> map_of regionBboxes ''christchurch'' = Some ?b
      \<and> (\<forall>k \<in> set bbox_keys. field_value (form ?d) k = None)"
    by (simp add: FormData_get_def regionBboxes_def bbox_keys_def field_value_def)
  have "fold field_step (form ?d) (region_params (FormData_get (form ?d) ''region'') []) =
      [(''min_lat'', ''-43.6''), (''min_lon'', ''172.5''), (''max_lat'', ''-43.45''),
       (''max_lon'', ''172.77''), (''effort'', ''steady'')]"
    by (simp add: region_params_def regionBboxes_get_def regionBboxes_def
        member_string_def FormData_get_def field_step_def table_strings)
  moreover have "URLSearchParams_toString
      [(''min_lat'', ''-43.6''), (''min_lon'', ''172.5''), (''max_lat'', ''-43.45''),
       (''max_lon'', ''172.77''), (''effort'', ''steady'')] =
      ''min_lat=-43.6&min_lon=172.5&max_lat=-43.45&max_lon=172.77&effort=steady''"
    by code_simp
  ultimately have q: "fst (buildQuery ?d) =
      ''min_lat=-43.6&min_lon=172.5&max_lat=-43.45&max_lon=172.77&effort=steady''"
    by (simp only: buildQuery_string)
  from region_expands_to_bbox [of ?d "''christchurch''" ?b] h
  have "map_of (parse_query (fst (buildQuery ?d))) ''min_lat'' = Some (decimal_toString (min_lat ?b))"
    and "map_of (parse_query (fst (buildQuery ?d))) ''max_lon'' = Some (decimal_toString (max_lon ?b))"
    by blast+
  with q show ?thesis
    by (simp add: table_strings)
qed

text \<open>
  With a recognised region and a non-empty field that is itself named \<open>min_lat\<close>, the
  query string carries the field's value, not the table's: the claim as written fails.
\<close>

theorem region_expands_to_bbox_counterexample:
  "fst (buildQuery \<lparr>form = [(''region'', Text ''wellington''), (''min_lat'', Text ''1'')],
                    resultsEl = [], resultCountEl = [], providersEl = []\<rparr>)
     = ''min_lat=1&min_lon=174.72&max_lat=-41.24&max_lon=174.82''
   \<and> FormData_get [(''region'', Text ''wellington''), (''min_lat'', Text ''1'')] ''region''
       = Some (Text ''wellington'')
   \<and> map_of regionBboxes ''wellington''
       = Some \<lparr>min_lat = Decimal (-4135) 2, min_lon = Decimal 17472 2,
               max_lat = Decimal (-4124) 2, max_lon = Decimal 17482 2\<rparr>
   \<and> decimal_toString (Decimal (-4135) 2) = ''-41.35''"
proof -
  let ?d = "\<lparr>form = [(''region'', Text ''wellington''), (''min_lat'', Text ''1'')],
             resultsEl = [], resultCountEl = [], providersEl = []\<rparr>"
  have "fold field_step (form ?d) (region_params (FormData_get (form ?d) ''region'') []) =
      [(''min_lat'', ''1''), (''min_lon'', ''174.72''), (''max_lat'', ''-41.24''),
       (''max_lon'', ''174.82'')]"
    by (simp add: region_params_def regionBboxes_get_def regionBboxes_def
        member_string_def FormData_get_def field_step_def table_strings)
  moreover have "URLSearchParams_toString
      [(''min_lat'', ''1''), (''min_lon'', ''174.72''), (''max_lat'', ''-41.24''),
       (''max_lon'', ''174.82'')] =
      ''min_lat=1&min_lon=174.72&max_lat=-41.24&max_lon=174.82''"
    by code_simp
  ultimately have "fst (buildQuery ?d) =
      ''min_lat=1&min_lon=174.72&max_lat=-41.24&max_lon=174.82''"
    by (simp only: buildQuery_string)
  then show ?thesis
    by (simp add: FormData_get_def regionBboxes_def table_strings)
qed

subsection \<open>An unrecognised region\<close>

text \<open>
  C2, amended. If the form's \<open>region\<close> is a non-empty string that is neither a key of
  the table nor the name of a member objects inherit, and no field named \<open>min_lat\<close>,
  \<open>min_lon\<close>, \<open>max_lat\<close> or \<open>max_lon\<close> has a non-empty value, then the query string
  has no parameter named \<open>region\<close> and none of the four bounds: it is what the loop
  over the fields alone produces. The builder is a total function; nothing is raised.
\<close>

theorem unknown_region_dropped:
  "FormData_get (form d) ''region'' = Some (Text r) \<and> r \<noteq> []
     \<and> map_of regionBboxes r = None \<and> r \<notin> set Object_prototype_keys
     \<and> (\<forall>k \<in> set bbox_keys. field_value (form d) k = None) \<longrightarrow>
   ''region'' \<notin> fst ` set (parse_query (fst (buildQuery d)))
     \<and> (\<forall>k \<in> set bbox_keys. k \<notin> fst ` set (parse_query (fst (buildQuery d))))
     \<and> parse_query (fst (buildQuery d)) = fold field_step (form d) []"
proof (intro impI, elim conjE)
  assume get: "FormData_get (form d) ''region'' = Some (Text r)"
    and unknown: "map_of regionBboxes r = None" "r \<notin> set Object_prototype_keys"
    and none: "\<forall>k \<in> set bbox_keys. field_value (form d) k = None"
  have ps: "parse_query (fst (buildQuery d)) = fold field_step (form d) []"
    using get unknown by (simp add: parse_buildQuery region_params_unknown)
  have "k \<notin> fst ` set (fold field_step (form d) [])" if "k \<in> set bbox_keys" for k
  proof -
    from that none have "field_value (form d) k = None"
      by blast
    then have "\<not> (\<exists>x. (k, x) \<in> set (form d) \<and> truthy x)"
      using field_value_Some_iff [of "form d" k] by simp
    then show ?thesis
      by (simp add: loop_names)
  qed
  with ps params_no_region [of d]
  show "''region'' \<notin> fst ` set (parse_query (fst (buildQuery d)))
     \<and> (\<forall>k \<in> set bbox_keys. k \<notin> fst ` set (parse_query (fst (buildQuery d))))
     \<and> parse_query (fst (buildQuery d)) = fold field_step (form d) []"
    by simp
qed

theorem unknown_region_dropped_witness:
  "fst (buildQuery \<lparr>form = [(''region'', Text ''atlantis''), (''effort'', Text ''steady'')],
                    resultsEl = [], resultCountEl = [], providersEl = []\<rparr>) = ''effort=steady''
   \<and> parse_query (fst (buildQuery
        \<lparr>form = [(''region'', Text ''atlantis''), (''effort'', Text ''steady'')],
         resultsEl = [], resultCountEl = [], providersEl = []\<rparr>)) = [(''effort'', ''steady'')]"
proof -
  let ?d = "\<lparr>form = [(''region'', Text ''atlantis''), (''effort'', Text ''steady'')],
             resultsEl = [], resultCountEl = [], providersEl = []\<rparr>"
  have h: "FormData_get (form ?d) ''region'' = Some (Text ''atlantis'') \<and> ''atlantis'' \<noteq> []
     \<and> map_of regionBboxes ''atlantis'' = None \<and> ''atlantis'' \<notin> set Object_prototype_keys
     \<and> (\<forall>k \<in> set bbox_keys. field_value (form ?d) k = None)"
    by (simp add: FormData_get_def regionBboxes_def Object_prototype_keys_def bbox_keys_def
        field_value_def)
  have q: "fst (buildQuery ?d) = ''effort=steady''"
    by code_simp
  from unknown_region_dropped [of ?d "''atlantis''"] h
  have "parse_query (fst (buildQuery ?d)) = fold field_step (form ?d) []"
    by blast
  with q show ?thesis
    by (simp add: field_step_def)
qed

text \<open>
  With an unrecognised region and a non-empty field named \<open>min_lat\<close>, the query string
  has a \<open>min_lat\<close> parameter: the claim as written fails.
\<close>

theorem unknown_region_dropped_counterexample:
  "fst (buildQuery \<lparr>form = [(''region'', Text ''atlantis''), (''min_lat'', Text ''1'')],
                    resultsEl = [], resultCountEl = [], providersEl = []\<rparr>) = ''min_lat=1''
   \<and> FormData_get [(''region'', Text ''atlantis''), (''min_lat'', Text ''1'')] ''region''
       = Some (Text ''atlantis'')
   \<and> map_of regionBboxes ''atlantis'' = None"
proof -
  have "fst (buildQuery \<lparr>form = [(''region'', Text ''atlantis''), (''min_lat'', Text ''1'')],
                    resultsEl = [], resultCountEl = [], providersEl = []\<rparr>) = ''min_lat=1''"
    by code_simp
  then show ?thesis
    by (simp add: FormData_get_def regionBboxes_def)
qed

text \<open>
  The other way the claim fails: a region named like a member every object inherits
  passes the test \<open>regionBboxes[region]\<close>, and the four bounds are sent as \<open>undefined\<close>.
\<close>

lemma inherited_member_region:
  "fst (buildQuery \<lparr>form = [(''region'', Text ''constructor''), (''effort'', Text ''steady'')],
                    resultsEl = [], resultCountEl = [], providersEl = []\<rparr>)
     = ''min_lat=undefined&min_lon=undefined&max_lat=undefined&max_lon=undefined&effort=steady''
   \<and> map_of regionBboxes ''constructor'' = None"
proof -
  let ?d = "\<lparr>form = [(''region'', Text ''constructor''), (''effort'', Text ''steady'')],
             resultsEl = [], resultCountEl = [], providersEl = []\<rparr>"
  have "fold field_step (form ?d) (region_params (FormData_get (form ?d) ''region'') []) =
      [(''min_lat'', ''undefined''), (''min_lon'', ''undefined''), (''max_lat'', ''undefined''),
       (''max_lon'', ''undefined''), (''effort'', ''steady'')]"
    by (simp add: region_params_def regionBboxes_get_def regionBboxes_def
        Object_prototype_keys_def member_string_def FormData_get_def field_step_def)
  moreover have "URLSearchParams_toString
      [(''min_lat'', ''undefined''), (''min_lon'', ''undefined''), (''max_lat'', ''undefined''),
       (''max_lon'', ''undefined''), (''effort'', ''steady'')] =
      ''min_lat=undefined&min_lon=undefined&max_lat=undefined&max_lon=undefined&effort=steady''"
    by code_simp
  ultimately have "fst (buildQuery ?d) =
      ''min_lat=undefined&min_lon=undefined&max_lat=undefined&max_lon=undefined&effort=steady''"
    by (simp only: buildQuery_string)
  then show ?thesis
    by (simp add: regionBboxes_def)
qed

subsection \<open>A form without a region\<close>

text \<open>
  C3. If no entry of the form is named \<open>region\<close>, the names of the parameters of the
  query string are exactly the names of the entries with a non-empty value, each name
  occurs once, and the parameter of a name carries the value of the field of that
  name (of its last non-empty entry, should the form repeat a name). For a form whose
  names are distinct the parameters are the non-empty entries, in the form's order.
\<close>

theorem query_without_region:
  "''region'' \<notin> fst ` set (form d) \<longrightarrow>
     distinct (map fst (parse_query (fst (buildQuery d))))
     \<and> fst ` set (parse_query (fst (buildQuery d))) =
         {k. \<exists>x. (k, x) \<in> set (form d) \<and> truthy x}
     \<and> map_of (parse_query (fst (buildQuery d))) k = field_value (form d) k
     \<and> (distinct (map fst (form d)) \<longrightarrow>
          ((k, x) \<in> set (form d) \<and> truthy x \<longrightarrow>
             map_of (parse_query (fst (buildQuery d))) k = Some (value_toString x))
          \<and> parse_query (fst (buildQuery d)) =
            map (\<lambda>e. (fst e, value_toString (snd e))) (filter (\<lambda>e. truthy (snd e)) (form d)))"
proof
  assume no_region: "''region'' \<notin> fst ` set (form d)"
  then have "FormData_get (form d) ''region'' = None"
    by (simp add: FormData_get_def map_of_eq_None_iff)
  then have ps: "parse_query (fst (buildQuery d)) = fold field_step (form d) []"
    by (simp add: parse_buildQuery region_params_def)
  have names: "fst ` set (fold field_step (form d) []) =
      {k. \<exists>x. (k, x) \<in> set (form d) \<and> truthy x}"
    using no_region by (force simp: loop_names)
  have val: "map_of (fold field_step (form d) []) k = field_value (form d) k"
  proof (cases "k = ''region''")
    case True
    with no_region have "\<not> (\<exists>x. (k, x) \<in> set (form d) \<and> truthy x)"
      by force
    then have "field_value (form d) k = None"
      by (simp add: field_value_None_iff)
    with True show ?thesis
      by (simp add: loop_map_of)
  next
    case False
    then show ?thesis
      by (simp add: loop_map_of split: option.splits)
  qed
  have ordered: "fold field_step (form d) [] =
      map (\<lambda>e. (fst e, value_toString (snd e))) (filter (\<lambda>e. truthy (snd e)) (form d))"
    if "distinct (map fst (form d))"
    using loop_fresh [OF that no_region, of "[]"] by simp
  have field: "map_of (fold field_step (form d) []) k = Some (value_toString x)"
    if "distinct (map fst (form d))" and "(k, x) \<in> set (form d)" and "truthy x"
    using that by (simp add: val field_value_distinct)
  from names val ordered field params_distinct [of d]
  show "distinct (map fst (parse_query (fst (buildQuery d))))
     \<and> fst ` set (parse_query (fst (buildQuery d))) =
         {k. \<exists>x. (k, x) \<in> set (form d) \<and> truthy x}
     \<and> map_of (parse_query (fst (buildQuery d))) k = field_value (form d) k
     \<and> (distinct (map fst (form d)) \<longrightarrow>
          ((k, x) \<in> set (form d) \<and> truthy x \<longrightarrow>
             map_of (parse_query (fst (buildQuery d))) k = Some (value_toString x))
          \<and> parse_query (fst (buildQuery d)) =
            map (\<lambda>e. (fst e, value_toString (snd e))) (filter (\<lambda>e. truthy (snd e)) (form d)))"
    unfolding ps by simp
qed

theorem query_without_region_witness:
  "fst (buildQuery \<lparr>form = [(''effort'', Text ''steady''), (''length'', Text []),
                            (''dog'', Text ''allowed'')],
                    resultsEl = [], resultCountEl = [], providersEl = []\<rparr>)
     = ''effort=steady&dog=allowed''
   \<and> parse_query (fst (buildQuery
        \<lparr>form = [(''effort'', Text ''steady''), (''length'', Text []),
                 (''dog'', Text ''allowed'')],
         resultsEl = [], resultCountEl = [], providersEl = []\<rparr>))
     = [(''effort'', ''steady''), (''dog'', ''allowed'')]"
proof -
  let ?d = "\<lparr>form = [(''effort'', Text ''steady''), (''length'', Text []),
                     (''dog'', Text ''allowed'')],
             resultsEl = [], resultCountEl = [], providersEl = []\<rparr>"
  have h: "''region'' \<notin> fst ` set (form ?d)" and dist: "distinct (map fst (form ?d))"
    by simp_all
  have q: "fst (buildQuery ?d) = ''effort=steady&dog=allowed''"
    by code_simp
  from query_without_region [of ?d] h dist
  have "parse_query (fst (buildQuery ?d)) =
      map (\<lambda>e. (fst e, value_toString (snd e))) (filter (\<lambda>e. truthy (snd e)) (form ?d))"
    by blast
  with q show ?thesis
    by simp
qed

subsection \<open>Fields named like the bounds\<close>

text \<open>
  C10. With a recognised region, a field named \<open>min_lat\<close>, \<open>min_lon\<close>, \<open>max_lat\<close> or
  \<open>max_lon\<close> that has a non-empty value gives its own value to the parameter of that
  name, in place of the region's bound. When no such field has a non-empty value, the
  first four parameters of the query string are the four bounds of the region, in the
  order \<open>min_lat\<close>, \<open>min_lon\<close>, \<open>max_lat\<close>, \<open>max_lon\<close>, and every other parameter
  comes after them.
\<close>

theorem field_overrides_region_bound:
  "FormData_get (form d) ''region'' = Some (Text r) \<and> map_of regionBboxes r = Some b \<longrightarrow>
     (k \<in> set bbox_keys \<and> field_value (form d) k = Some v \<longrightarrow>
        map_of (parse_query (fst (buildQuery d))) k = Some v)
     \<and> map fst (take 4 (parse_query (fst (buildQuery d)))) = bbox_keys
     \<and> ((\<forall>k \<in> set bbox_keys. field_value (form d) k = None) \<longrightarrow>
          take 4 (parse_query (fst (buildQuery d))) =
            [(''min_lat'', decimal_toString (min_lat b)),
             (''min_lon'', decimal_toString (min_lon b)),
             (''max_lat'', decimal_toString (max_lat b)),
             (''max_lon'', decimal_toString (max_lon b))]
          \<and> (\<forall>p \<in> set (drop 4 (parse_query (fst (buildQuery d)))). fst p \<notin> set bbox_keys))"
proof (intro impI, elim conjE)
  let ?ps = "parse_query (fst (buildQuery d))"
  assume get: "FormData_get (form d) ''region'' = Some (Text r)"
    and known: "map_of regionBboxes r = Some b"
  have over: "map_of ?ps k = Some v" if "k \<in> set bbox_keys" "field_value (form d) k = Some v"
  proof -
    from that(1) have "k \<noteq> ''region''"
      by (auto simp: bbox_keys_def)
    from known_region_map_of [OF get known this] that(2) show ?thesis
      by simp
  qed
  have names: "map fst (take 4 ?ps) = bbox_keys"
    using known_region_first_names [OF get known] by (simp add: take_map)
  have four: "take 4 ?ps =
            [(''min_lat'', decimal_toString (min_lat b)),
             (''min_lon'', decimal_toString (min_lon b)),
             (''max_lat'', decimal_toString (max_lat b)),
             (''max_lon'', decimal_toString (max_lon b))]"
    if none: "\<forall>k \<in> set bbox_keys. field_value (form d) k = None"
  proof -
    have "map_of ?ps k =
        map_of [(''min_lat'', decimal_toString (min_lat b)),
                (''min_lon'', decimal_toString (min_lon b)),
                (''max_lat'', decimal_toString (max_lat b)),
                (''max_lon'', decimal_toString (max_lon b))] k" if "k \<in> set bbox_keys" for k
    proof -
      from that have "k \<noteq> ''region''"
        by (auto simp: bbox_keys_def)
      from known_region_map_of [OF get known this] none that show ?thesis
        by simp
    qed
    from this [of "''min_lat''"] this [of "''min_lon''"] this [of "''max_lat''"]
      this [of "''max_lon''"]
    show ?thesis
      unfolding known_region_first_four [OF get known] by (simp add: bbox_keys_def)
  qed
  have rest: "\<forall>p \<in> set (drop 4 ?ps). fst p \<notin> set bbox_keys"
  proof -
    have "distinct (map fst (take 4 ?ps) @ map fst (drop 4 ?ps))"
      using params_distinct [of d] by (simp only: map_append [symmetric] append_take_drop_id)
    then have "set (map fst (take 4 ?ps)) \<inter> set (map fst (drop 4 ?ps)) = {}"
      by simp
    then show ?thesis
      unfolding names by auto
  qed
  from over names four rest
  show "(k \<in> set bbox_keys \<and> field_value (form d) k = Some v \<longrightarrow> map_of ?ps k = Some v)
     \<and> map fst (take 4 ?ps) = bbox_keys
     \<and> ((\<forall>k \<in> set bbox_keys. field_value (form d) k = None) \<longrightarrow>
          take 4 ?ps =
            [(''min_lat'', decimal_toString (min_lat b)),
             (''min_lon'', decimal_toString (min_lon b)),
             (''max_lat'', decimal_toString (max_lat b)),
             (''max_lon'', decimal_toString (max_lon b))]
          \<and> (\<forall>p \<in> set (drop 4 ?ps). fst p \<notin> set bbox_keys))"
    by blast
qed

theorem field_overrides_region_bound_witness:
  "map_of (parse_query (fst (buildQuery
      \<lparr>form = [(''region'', Text ''wellington''), (''max_lat'', Text ''-41''),
               (''effort'', Text ''steady'')],
       resultsEl = [], resultCountEl = [], providersEl = []\<rparr>))) ''max_lat'' = Some ''-41''
   \<and> take 4 (parse_query (fst (buildQuery
      \<lparr>form = [(''dog'', Text ''allowed''), (''region'', Text ''auckland'')],
       resultsEl = [], resultCountEl = [], providersEl = []\<rparr>)))
     = [(''min_lat'', ''-36.93''), (''min_lon'', ''174.63''), (''max_lat'', ''-36.77''),
        (''max_lon'', ''174.84'')]"
proof -
  let ?d = "\<lparr>form = [(''region'', Text ''wellington''), (''max_lat'', Text ''-41''),
                     (''effort'', Text ''steady'')],
             resultsEl = [], resultCountEl = [], providersEl = []\<rparr>"
  let ?e = "\<lparr>form = [(''dog'', Text ''allowed''), (''region'', Text ''auckland'')],
             resultsEl = [], resultCountEl = [], providersEl = []\<rparr>"
  let ?w = "\<lparr>min_lat = Decimal (-4135) 2, min_lon = Decimal 17472 2,
             max_lat = Decimal (-4124) 2, max_lon = Decimal 17482 2\<rparr>"
  let ?a = "\<lparr>min_lat = Decimal (-3693) 2, min_lon = Decimal 17463 2,
             max_lat = Decimal (-3677) 2, max_lon = Decimal 17484 2\<rparr>"
  have hd: "FormData_get (form ?d) ''region'' = Some (Text ''wellington'')
      \<and> map_of regionBboxes ''wellington'' = Some ?w"
    and kd: "''max_lat'' \<in> set bbox_keys \<and> field_value (form ?d) ''max_lat'' = Some ''-41''"
    by (simp_all add: FormData_get_def regionBboxes_def bbox_keys_def field_value_def)
  have he: "FormData_get (form ?e) ''region'' = Some (Text ''auckland'')
      \<and> map_of regionBboxes ''auckland'' = Some ?a"
    and ke: "\<forall>k \<in> set bbox_keys. field_value (form ?e) k = None"
    by (simp_all add: FormData_get_def regionBboxes_def bbox_keys_def field_value_def)
  from field_overrides_region_bound [of ?d "''wellington''" ?w "''max_lat''" "''-41''"] hd kd
  have 1: "map_of (parse_query (fst (buildQuery ?d))) ''max_lat'' = Some ''-41''"
    by blast
  from field_overrides_region_bound [of ?e "''auckland''" ?a] he ke
  have 2: "take 4 (parse_query (fst (buildQuery ?e))) =
            [(''min_lat'', decimal_toString (min_lat ?a)),
             (''min_lon'', decimal_toString (min_lon ?a)),
             (''max_lat'', decimal_toString (max_lat ?a)),
             (''max_lon'', decimal_toString (max_lon ?a))]"
    by blast
  from 1 2 show ?thesis
    by (simp add: table_strings)
qed

end
